theory Spec2Isabelle
  imports Complex_Main "HOL-Library.Sublist"
begin

section \<open>Values exchanged with the hub\<close>

text \<open>
  \<^verbatim>\<open>ingest_from_apigw.py\<close> reads an OpenAPI document, looks a spec up by name in Postman
  Spec Hub, creates or updates it, and triggers collection generation. Every value that
  crosses the wire is what \<^verbatim>\<open>json.loads\<close> returns or \<^verbatim>\<open>json.dumps\<close> takes: a Python
  \<^verbatim>\<open>None\<close>, \<^verbatim>\<open>bool\<close>, \<^verbatim>\<open>int\<close>, \<^verbatim>\<open>float\<close>, \<^verbatim>\<open>str\<close>, \<^verbatim>\<open>list\<close> or \<^verbatim>\<open>dict\<close>. A dict is
  the list of its items; a key is looked up with \<open>map_of\<close>. A float is the rational it
  denotes (the non-standard tokens NaN and Infinity are left out: they are truthy and
  neither strings nor containers, hence go the way of any non-zero float below).
\<close>

datatype json =
    JNull
  | JBool bool
  | JInt int
  | JFloat rat
  | JStr string
  | JArr "json list"
  | JObj "(string \<times> json) list"

text \<open>
  The three URLs the script builds. The f-strings interpolate the workspace id (a
  command-line string) or the spec id (whatever value the hub returned) into
  \<^verbatim>\<open>https://api.getpostman.com/specs...\<close>; the interpolated value is kept as it is.
\<close>

datatype url =
    Specs_url string      \<comment> \<open>\<^verbatim>\<open>f"{POSTMAN_API_BASE}/specs?workspaceId={workspace_id}"\<close>\<close>
  | Spec_url json         \<comment> \<open>\<^verbatim>\<open>f"{POSTMAN_API_BASE}/specs/{spec_id}"\<close>\<close>
  | Generation_url json   \<comment> \<open>\<^verbatim>\<open>f"{POSTMAN_API_BASE}/specs/{spec_id}/generations/collection"\<close>\<close>

text \<open>
  Exceptions are values. A \<^verbatim>\<open>RuntimeError\<close> carries its message, kept structured: the
  fields are the values the f-string of the message interpolates. The aggregate messages
  of \<^verbatim>\<open>create_spec\<close> and \<^verbatim>\<open>update_spec\<close> interpolate \<^verbatim>\<open>last_err\<close>, which is also the
  \<^verbatim>\<open>__cause__\<close> set by \<^verbatim>\<open>raise ... from last_err\<close>.
\<close>

datatype error =
    RuntimeError message
  | JSONDecodeError          \<comment> \<open>\<^verbatim>\<open>json.loads\<close> on a body that is not JSON\<close>
  | TimeoutError             \<comment> \<open>\<^verbatim>\<open>urlopen(req, timeout=60)\<close> ran out of time\<close>
  | URLError                 \<comment> \<open>\<^verbatim>\<open>urlopen\<close> could not reach the host\<close>
  | TypeError
  | AttributeError
  | KeyError string
  | FileNotFoundError string
  | PermissionError string
  | UnicodeDecodeError
  | CalledProcessError nat   \<comment> \<open>\<^verbatim>\<open>subprocess.run(cmd, check=True)\<close>, non-zero exit status\<close>
  | SystemExit nat           \<comment> \<open>\<^verbatim>\<open>parser.error\<close>\<close>
and message =
    HTTP_calling nat url string        \<comment> \<open>\<^verbatim>\<open>f"HTTP {e.code} calling {url}: {raw}"\<close>\<close>
  | Unexpected_spec_response json      \<comment> \<open>\<^verbatim>\<open>f"Unexpected spec response: {resp}"\<close>\<close>
  | Failed_to_create nat "error option"
      \<comment> \<open>\<^verbatim>\<open>f"Failed to create spec (tried {len(payload_variants)} payloads): {last_err}"\<close>\<close>
  | Failed_to_update json "error option"
      \<comment> \<open>\<^verbatim>\<open>f"Failed to update spec {spec_id}: {last_err}"\<close>\<close>

text \<open>\<^verbatim>\<open>except Exception\<close> catches everything but \<^verbatim>\<open>SystemExit\<close>, a \<^verbatim>\<open>BaseException\<close>.\<close>

fun is_Exception :: "error \<Rightarrow> bool" where
  "is_Exception (SystemExit _) = False"
| "is_Exception _ = True"

subsection \<open>The Python operators the script applies to parsed JSON\<close>

fun is_dict :: "json \<Rightarrow> bool" where
  "is_dict (JObj _) = True"
| "is_dict _ = False"

fun is_str :: "json \<Rightarrow> bool" where
  "is_str (JStr _) = True"
| "is_str _ = False"

text \<open>Truth value of an object, as \<^verbatim>\<open>if x\<close>, \<^verbatim>\<open>not x\<close> and \<^verbatim>\<open>x and y\<close> test it.\<close>

fun truthy :: "json \<Rightarrow> bool" where
  "truthy JNull = False"
| "truthy (JBool b) = b"
| "truthy (JInt i) = (i \<noteq> 0)"
| "truthy (JFloat r) = (r \<noteq> 0)"
| "truthy (JStr s) = (s \<noteq> [])"
| "truthy (JArr xs) = (xs \<noteq> [])"
| "truthy (JObj kvs) = (kvs \<noteq> [])"

text \<open>
  \<^verbatim>\<open>k in x\<close> for a string \<open>k\<close>: key membership on a dict, element membership on a list,
  substring test on a string, \<^verbatim>\<open>TypeError\<close> on anything else.
\<close>

fun py_in :: "string \<Rightarrow> json \<Rightarrow> error + bool" where
  "py_in k (JObj kvs) = Inr (map_of kvs k \<noteq> None)"
| "py_in k (JArr xs) = Inr (JStr k \<in> set xs)"
| "py_in k (JStr s) = Inr (sublist k s)"
| "py_in k _ = Inl TypeError"

text \<open>\<^verbatim>\<open>x[k]\<close> for a string \<open>k\<close>: only a dict can be indexed by a string.\<close>

fun py_getitem :: "json \<Rightarrow> string \<Rightarrow> error + json" where
  "py_getitem (JObj kvs) k = (case map_of kvs k of None \<Rightarrow> Inl (KeyError k) | Some v \<Rightarrow> Inr v)"
| "py_getitem _ k = Inl TypeError"

text \<open>\<^verbatim>\<open>x.get(k, default)\<close>: a method of dicts only.\<close>

fun py_get :: "json \<Rightarrow> string \<Rightarrow> json \<Rightarrow> error + json" where
  "py_get (JObj kvs) k d = (case map_of kvs k of None \<Rightarrow> Inr d | Some v \<Rightarrow> Inr v)"
| "py_get _ k d = Inl AttributeError"

text \<open>
  \<^verbatim>\<open>for s in x\<close>: the elements of a list, the keys of a dict, the characters of a
  string; anything else is not iterable.
\<close>

fun py_iter :: "json \<Rightarrow> error + json list" where
  "py_iter (JArr xs) = Inr xs"
| "py_iter (JObj kvs) = Inr (map JStr (remdups (map fst kvs)))"
| "py_iter (JStr s) = Inr (map (\<lambda>c. JStr [c]) s)"
| "py_iter _ = Inl TypeError"

text \<open>\<^verbatim>\<open>a and b\<close> on conditions that may raise: \<open>b\<close> counts only where \<open>a\<close> holds.\<close>

definition py_and :: "error + bool \<Rightarrow> error + bool \<Rightarrow> error + bool" where
  "py_and a b = (case a of Inl e \<Rightarrow> Inl e | Inr True \<Rightarrow> b | Inr False \<Rightarrow> Inr False)"

section \<open>The world outside the process\<close>

text \<open>
  A file is the text that decoding its bytes as UTF-8 gives, or is not decodable.
  Encoding is the inverse of decoding, so two decodable files have the same bytes
  exactly when they have the same text.
\<close>

datatype file_data = Text string | Undecodable

record request =
  req_method :: string
  req_url :: url
  req_key :: string            \<comment> \<open>the \<^verbatim>\<open>X-Api-Key\<close> header\<close>
  req_body :: "json option"    \<comment> \<open>\<^verbatim>\<open>json.dumps(body)\<close>, absent for \<^verbatim>\<open>GET\<close>\<close>

text \<open>What \<^verbatim>\<open>urlopen\<close> can come back with.\<close>

datatype reply =
    Ok_empty                 \<comment> \<open>2xx, empty body\<close>
  | Ok_json json             \<comment> \<open>2xx, the body parses to this value\<close>
  | Ok_malformed             \<comment> \<open>2xx, the body is not JSON\<close>
  | Http_error nat string    \<comment> \<open>\<^verbatim>\<open>HTTPError\<close>: status code and body\<close>
  | Timed_out                \<comment> \<open>no answer within 60 seconds\<close>
  | Unreachable

datatype event = Http request | Subprocess "string list"

text \<open>
  The state a run works on: the environment variable, the file system, the hub (a
  server with a state of its own, answering one request at a time), the \<^verbatim>\<open>aws\<close> command
  and the record of the external calls made so far, oldest first. A path is the string
  the script passes to \<^verbatim>\<open>open\<close>. Several paths may lead to one file (\<^verbatim>\<open>in.yaml\<close> and
  \<^verbatim>\<open>./in.yaml\<close>, a link): \<open>realpath\<close> gives the canonical name of the file a path leads
  to, and the files are kept under their canonical names. Opening a path for writing
  fails where \<open>writable\<close> says so.
  The \<^verbatim>\<open>aws\<close> command maps its arguments and the files to its exit status, or to \<open>None\<close>
  when no such program is installed, and to the files it leaves.
\<close>

record 's world =
  POSTMAN_API_KEY :: "string option"     \<comment> \<open>\<^verbatim>\<open>os.environ.get("POSTMAN_API_KEY")\<close>\<close>
  realpath :: "string \<Rightarrow> string"
  files :: "string \<rightharpoonup> file_data"
  writable :: "string \<Rightarrow> bool"
  linesep :: string                      \<comment> \<open>\<^verbatim>\<open>os.linesep\<close>\<close>
  aws :: "string list \<Rightarrow> (string \<rightharpoonup> file_data) \<Rightarrow> nat option \<times> (string \<rightharpoonup> file_data)"
  serve :: "'s \<Rightarrow> request \<Rightarrow> reply \<times> 's"
  hub :: 's
  log :: "event list"

type_synonym ('a, 's) run = "'s world \<Rightarrow> (error + 'a) \<times> 's world"

section \<open>The HTTP helper\<close>

definition http_json :: "string \<Rightarrow> url \<Rightarrow> string \<Rightarrow> json option \<Rightarrow> (json, 's) run" where
  "http_json method u api_key body w =
    (let req = \<lparr>req_method = method, req_url = u, req_key = api_key, req_body = body\<rparr>;
         (r, s') = serve w (hub w) req;
         w' = w\<lparr>hub := s', log := log w @ [Http req]\<rparr>
     in case r of
          Ok_empty \<Rightarrow> (Inr (JObj []), w')
        | Ok_json j \<Rightarrow> (Inr j, w')
        | Ok_malformed \<Rightarrow> (Inl JSONDecodeError, w')
        | Http_error code raw \<Rightarrow> (Inl (RuntimeError (HTTP_calling code u raw)), w')
        | Timed_out \<Rightarrow> (Inl TimeoutError, w')
        | Unreachable \<Rightarrow> (Inl URLError, w'))"

section \<open>The Spec Hub client\<close>

definition list_specs :: "string \<Rightarrow> string \<Rightarrow> (json, 's) run" where
  "list_specs workspace_id api_key w =
    (case http_json ''GET'' (Specs_url workspace_id) api_key None w of
       (Inl e, w') \<Rightarrow> (Inl e, w')
     | (Inr resp, w') \<Rightarrow> (py_get resp ''specs'' (JArr []), w'))"

definition extract_spec_id :: "json \<Rightarrow> error + json" where
  "extract_spec_id resp =
    (case py_and (py_in ''spec'' resp)
            (case py_getitem resp ''spec'' of
               Inl e \<Rightarrow> Inl e
             | Inr sp \<Rightarrow> py_and (Inr (is_dict sp)) (py_in ''id'' sp)) of
       Inl e \<Rightarrow> Inl e
     | Inr True \<Rightarrow>
         (case py_getitem resp ''spec'' of
            Inl e \<Rightarrow> Inl e
          | Inr sp \<Rightarrow> py_getitem sp ''id'')
     | Inr False \<Rightarrow>
         (case py_and (py_in ''id'' resp)
                 (case py_getitem resp ''id'' of
                    Inl e \<Rightarrow> Inl e
                  | Inr v \<Rightarrow> Inr (is_str v)) of
            Inl e \<Rightarrow> Inl e
          | Inr True \<Rightarrow> py_getitem resp ''id''
          | Inr False \<Rightarrow> Inl (RuntimeError (Unexpected_spec_response resp))))"

text \<open>
  The three request bodies, in the order they are tried. \<^verbatim>\<open>create_spec\<close> and
  \<^verbatim>\<open>update_spec\<close> each spell out the same list.
\<close>

definition variant_A :: "string \<Rightarrow> string \<Rightarrow> json" where
  "variant_A name spec_yaml =
    JObj [(''name'', JStr name), (''type'', JStr ''openapi3''),
          (''language'', JStr ''yaml''), (''schema'', JStr spec_yaml)]"

definition variant_B :: "string \<Rightarrow> string \<Rightarrow> json" where
  "variant_B name spec_yaml =
    JObj [(''specName'', JStr name), (''specType'', JStr ''openapi3''),
          (''filePath'', JStr (name @ ''.yaml'')), (''content'', JStr spec_yaml)]"

definition variant_C :: "string \<Rightarrow> string \<Rightarrow> json" where
  "variant_C name spec_yaml = JObj [(''spec'', variant_A name spec_yaml)]"

definition payload_variants :: "string \<Rightarrow> string \<Rightarrow> json list" where
  "payload_variants name spec_yaml =
    [variant_A name spec_yaml, variant_B name spec_yaml, variant_C name spec_yaml]"

text \<open>The body of the \<^verbatim>\<open>try\<close> block of \<^verbatim>\<open>create_spec\<close>: one request, then the extraction.\<close>

definition create_attempt :: "url \<Rightarrow> string \<Rightarrow> json \<Rightarrow> (json, 's) run" where
  "create_attempt u api_key body w =
    (case http_json ''POST'' u api_key (Some body) w of
       (Inl e, w') \<Rightarrow> (Inl e, w')
     | (Inr resp, w') \<Rightarrow> (extract_spec_id resp, w'))"

text \<open>
  The \<^verbatim>\<open>for body in payload_variants\<close> loop of \<^verbatim>\<open>create_spec\<close> on the bodies still to
  try, \<open>n\<close> being \<^verbatim>\<open>len(payload_variants)\<close>.
\<close>

fun create_loop :: "url \<Rightarrow> string \<Rightarrow> nat \<Rightarrow> json list \<Rightarrow> error option \<Rightarrow> (json, 's) run" where
  "create_loop u api_key n [] last_err w =
    (Inl (RuntimeError (Failed_to_create n last_err)), w)"
| "create_loop u api_key n (body # rest) last_err w =
    (case create_attempt u api_key body w of
       (Inr spec_id, w') \<Rightarrow> (Inr spec_id, w')
     | (Inl e, w') \<Rightarrow>
         if is_Exception e then create_loop u api_key n rest (Some e) w'
         else (Inl e, w'))"

definition create_spec :: "string \<Rightarrow> string \<Rightarrow> string \<Rightarrow> string \<Rightarrow> (json, 's) run" where
  "create_spec workspace_id api_key name spec_yaml w =
    create_loop (Specs_url workspace_id) api_key
      (length (payload_variants name spec_yaml)) (payload_variants name spec_yaml) None w"

text \<open>The body of the \<^verbatim>\<open>try\<close> block of \<^verbatim>\<open>update_spec\<close>: the response is not looked at.\<close>

definition update_attempt :: "url \<Rightarrow> string \<Rightarrow> json \<Rightarrow> (unit, 's) run" where
  "update_attempt u api_key body w =
    (case http_json ''PUT'' u api_key (Some body) w of
       (Inl e, w') \<Rightarrow> (Inl e, w')
     | (Inr resp, w') \<Rightarrow> (Inr (), w'))"

fun update_loop :: "url \<Rightarrow> string \<Rightarrow> json \<Rightarrow> json list \<Rightarrow> error option \<Rightarrow> (unit, 's) run" where
  "update_loop u api_key spec_id [] last_err w =
    (Inl (RuntimeError (Failed_to_update spec_id last_err)), w)"
| "update_loop u api_key spec_id (body # rest) last_err w =
    (case update_attempt u api_key body w of
       (Inr _, w') \<Rightarrow> (Inr (), w')
     | (Inl e, w') \<Rightarrow>
         if is_Exception e then update_loop u api_key spec_id rest (Some e) w'
         else (Inl e, w'))"

definition update_spec :: "json \<Rightarrow> string \<Rightarrow> string \<Rightarrow> string \<Rightarrow> (unit, 's) run" where
  "update_spec spec_id api_key name spec_yaml w =
    update_loop (Spec_url spec_id) api_key spec_id (payload_variants name spec_yaml) None w"

definition generate_collection_from_spec :: "json \<Rightarrow> string \<Rightarrow> (json, 's) run" where
  "generate_collection_from_spec spec_id api_key w =
    http_json ''POST'' (Generation_url spec_id) api_key (Some (JObj [])) w"

section \<open>Text files\<close>

text \<open>
  \<^verbatim>\<open>open(path, "r", encoding="utf-8")\<close> opens in text mode with the default
  \<^verbatim>\<open>newline=None\<close>: on reading, each of \<^verbatim>\<open>\r\n\<close>, \<^verbatim>\<open>\r\<close> and \<^verbatim>\<open>\n\<close> comes back as
  \<^verbatim>\<open>\n\<close>; on writing, each \<^verbatim>\<open>\n\<close> goes out as \<^verbatim>\<open>os.linesep\<close>. Reading raises when
  there is no file at the path or its bytes are not UTF-8; writing replaces the file.
\<close>

abbreviation CR :: char where "CR \<equiv> CHR 0x0D"
abbreviation LF :: char where "LF \<equiv> CHR 0x0A"

fun universal_newlines :: "string \<Rightarrow> string" where
  "universal_newlines [] = []"
| "universal_newlines [c] = (if c = CR then [LF] else [c])"
| "universal_newlines (c # d # cs) =
    (if c = CR \<and> d = LF then LF # universal_newlines cs
     else if c = CR then LF # universal_newlines (d # cs)
     else c # universal_newlines (d # cs))"

definition write_newlines :: "string \<Rightarrow> string \<Rightarrow> string" where
  "write_newlines sep s = concat (map (\<lambda>c. if c = LF then sep else [c]) s)"

definition read_text :: "string \<Rightarrow> (string, 's) run" where
  "read_text path w =
    (case files w (realpath w path) of
       None \<Rightarrow> (Inl (FileNotFoundError path), w)
     | Some Undecodable \<Rightarrow> (Inl UnicodeDecodeError, w)
     | Some (Text t) \<Rightarrow> (Inr (universal_newlines t), w))"

definition write_text :: "string \<Rightarrow> string \<Rightarrow> (unit, 's) run" where
  "write_text path s w =
    (if writable w path
     then (Inr (), w\<lparr>files := (files w)(realpath w path \<mapsto> Text (write_newlines (linesep w) s))\<rparr>)
     else (Inl (PermissionError path), w))"

section \<open>The export from API Gateway\<close>

definition aws_export_openapi :: "string \<Rightarrow> string \<Rightarrow> string \<Rightarrow> string \<Rightarrow> (unit, 's) run" where
  "aws_export_openapi region_name api_id stage out_path w =
    (let cmd = [''aws'', ''apigateway'', ''get-export'', ''--region'', region_name,
                ''--rest-api-id'', api_id, ''--stage-name'', stage,
                ''--export-type'', ''oas30'', out_path];
         (status, fs') = aws w cmd (files w);
         w' = w\<lparr>files := fs', log := log w @ [Subprocess cmd]\<rparr>
     in case status of
          None \<Rightarrow> (Inl (FileNotFoundError ''aws''), w')
        | Some n \<Rightarrow> if n = 0 then (Inr (), w') else (Inl (CalledProcessError n), w'))"

section \<open>The orchestrator\<close>

text \<open>The parsed command line. \<^verbatim>\<open>--workspace-id\<close> is required; two options have defaults.\<close>

record args =
  workspace_id :: string
  local_spec :: "string option"
  region :: "string option"
  rest_api_id :: "string option"
  stage_name :: "string option"
  spec_name :: string
  out :: string

text \<open>\<^verbatim>\<open>if val\<close> on an optional string: neither \<^verbatim>\<open>None\<close> nor empty.\<close>

fun present :: "string option \<Rightarrow> bool" where
  "present None = False"
| "present (Some s) = (s \<noteq> [])"

text \<open>Step 1 of \<^verbatim>\<open>main\<close>: the spec from a local file, or exported by \<^verbatim>\<open>aws\<close>.\<close>

definition get_spec :: "args \<Rightarrow> (string, 's) run" where
  "get_spec a w =
    (if present (local_spec a) then
       (case read_text (the (local_spec a)) w of
          (Inl e, w1) \<Rightarrow> (Inl e, w1)
        | (Inr spec_yaml, w1) \<Rightarrow>
            if the (local_spec a) \<noteq> out a then
              (case write_text (out a) spec_yaml w1 of
                 (Inl e, w2) \<Rightarrow> (Inl e, w2)
               | (Inr _, w2) \<Rightarrow> (Inr spec_yaml, w2))
            else (Inr spec_yaml, w1))
     else
       (let missing = map fst (filter (\<lambda>(name, val). \<not> present val)
                        [(''--region'', region a), (''--rest-api-id'', rest_api_id a),
                         (''--stage-name'', stage_name a)])
        in if missing \<noteq> [] then (Inl (SystemExit 2), w)
           else
             (case aws_export_openapi (the (region a)) (the (rest_api_id a))
                     (the (stage_name a)) (out a) w of
                (Inl e, w1) \<Rightarrow> (Inl e, w1)
              | (Inr _, w1) \<Rightarrow> read_text (out a) w1)))"

text \<open>The comprehension \<^verbatim>\<open>[s for s in ... if s.get("name") == args.spec_name]\<close>.\<close>

fun matching :: "string \<Rightarrow> json list \<Rightarrow> error + json list" where
  "matching name [] = Inr []"
| "matching name (s # ss) =
    (case py_get s ''name'' JNull of
       Inl e \<Rightarrow> Inl e
     | Inr v \<Rightarrow>
         (case matching name ss of
            Inl e \<Rightarrow> Inl e
          | Inr rest \<Rightarrow> Inr (if v = JStr name then s # rest else rest)))"

text \<open>Step 2 of \<^verbatim>\<open>main\<close>: look the name up, then update the first match or create.\<close>

definition upsert :: "args \<Rightarrow> string \<Rightarrow> string \<Rightarrow> (json, 's) run" where
  "upsert a api_key spec_yaml w =
    (case list_specs (workspace_id a) api_key w of
       (Inl e, w1) \<Rightarrow> (Inl e, w1)
     | (Inr specs, w1) \<Rightarrow>
         (case py_iter specs of
            Inl e \<Rightarrow> (Inl e, w1)
          | Inr ss \<Rightarrow>
              (case matching (spec_name a) ss of
                 Inl e \<Rightarrow> (Inl e, w1)
               | Inr existing \<Rightarrow>
                   (let create = create_spec (workspace_id a) api_key (spec_name a) spec_yaml w1
                    in case existing of
                         [] \<Rightarrow> create
                       | s # _ \<Rightarrow>
                           (case py_get s ''id'' JNull of
                              Inl e \<Rightarrow> (Inl e, w1)
                            | Inr v \<Rightarrow>
                                if truthy v then
                                  (case py_getitem s ''id'' of
                                     Inl e \<Rightarrow> (Inl e, w1)
                                   | Inr spec_id \<Rightarrow>
                                       (case update_spec spec_id api_key (spec_name a) spec_yaml w1 of
                                          (Inl e, w2) \<Rightarrow> (Inl e, w2)
                                        | (Inr _, w2) \<Rightarrow> (Inr spec_id, w2)))
                                else create)))))"

text \<open>
  \<^verbatim>\<open>main\<close>: the credential check, the three steps, and the last message, which formats
  \<^verbatim>\<open>sorted(gen.keys())\<close> and so needs the generation response to be a dict. The progress
  messages themselves are not kept.
\<close>

definition main :: "args \<Rightarrow> (nat, 's) run" where
  "main a w =
    (if \<not> present (POSTMAN_API_KEY w) then (Inr 2, w)
     else
       (let api_key = the (POSTMAN_API_KEY w)
        in case get_spec a w of
             (Inl e, w1) \<Rightarrow> (Inl e, w1)
           | (Inr spec_yaml, w1) \<Rightarrow>
               (case upsert a api_key spec_yaml w1 of
                  (Inl e, w2) \<Rightarrow> (Inl e, w2)
                | (Inr spec_id, w2) \<Rightarrow>
                    (case generate_collection_from_spec spec_id api_key w2 of
                       (Inl e, w3) \<Rightarrow> (Inl e, w3)
                     | (Inr gen, w3) \<Rightarrow>
                         if is_dict gen then (Inr 0, w3) else (Inl AttributeError, w3)))))"

text \<open>
  \<^verbatim>\<open>sys.exit(main())\<close>: the status of the process is what \<^verbatim>\<open>main\<close> returns, the code of a
  \<^verbatim>\<open>SystemExit\<close>, or 1 after the traceback of any other exception.
\<close>

fun exit_status :: "error + nat \<Rightarrow> nat" where
  "exit_status (Inr n) = n"
| "exit_status (Inl (SystemExit n)) = n"
| "exit_status (Inl _) = 1"

section \<open>Vocabulary of the properties\<close>

text \<open>
  The requests of the two executors, as they appear in the record of external calls.
\<close>

definition post :: "url \<Rightarrow> string \<Rightarrow> json \<Rightarrow> event" where
  "post u api_key body = Http \<lparr>req_method = ''POST'', req_url = u, req_key = api_key, req_body = Some body\<rparr>"

definition put :: "url \<Rightarrow> string \<Rightarrow> json \<Rightarrow> event" where
  "put u api_key body = Http \<lparr>req_method = ''PUT'', req_url = u, req_key = api_key, req_body = Some body\<rparr>"

text \<open>The one request of \<^verbatim>\<open>list_specs\<close>.\<close>

definition get_specs :: "string \<Rightarrow> string \<Rightarrow> request" where
  "get_specs wid api_key =
    \<lparr>req_method = ''GET'', req_url = Specs_url wid, req_key = api_key, req_body = None\<rparr>"

text \<open>
  An item of the listing bears the name \<open>name\<close>.
\<close>

definition named :: "string \<Rightarrow> json \<Rightarrow> bool" where
  "named name s = (py_get s ''name'' JNull = Inr (JStr name))"

text \<open>
  \<open>all_fail fs w\<close> runs the attempts \<open>fs\<close> one after the other from \<open>w\<close> for as long as
  they raise: it is the errors they raised, in order, with the world they leave, when
  every one of them raised, and \<open>None\<close> as soon as one returns.
\<close>

fun all_fail :: "('a, 's) run list \<Rightarrow> 's world \<Rightarrow> (error list \<times> 's world) option" where
  "all_fail [] w = Some ([], w)"
| "all_fail (f # fs) w =
    (case f w of
       (Inr _, _) \<Rightarrow> None
     | (Inl e, w') \<Rightarrow>
         (case all_fail fs w' of
            None \<Rightarrow> None
          | Some (es, w'') \<Rightarrow> Some (e # es, w'')))"

section \<open>Scenarios\<close>

text \<open>
  A hub that answers from a script, one reply per request, whatever is asked; once
  the script is over it cannot be reached. The worlds of the examples have the key set,
  every path its own canonical name and writable, and \<^verbatim>\<open>\n\<close> as line separator.
\<close>

fun scripted :: "reply list \<Rightarrow> request \<Rightarrow> reply \<times> reply list" where
  "scripted [] r = (Unreachable, [])"
| "scripted (x # xs) r = (x, xs)"

definition hub_world :: "(string \<rightharpoonup> file_data) \<Rightarrow> reply list \<Rightarrow> reply list world" where
  "hub_world fs replies =
    \<lparr>POSTMAN_API_KEY = Some ''PMAK-1'', realpath = (\<lambda>path. path), files = fs, writable = (\<lambda>_. True), linesep = [LF],
     aws = (\<lambda>cmd fs. (Some 0, fs)), serve = scripted, hub = replies, log = []\<rparr>"

definition rejecting :: "reply list world" where
  "rejecting = hub_world Map.empty [Http_error 400 ''no schema'', Ok_malformed, Http_error 500 ''down'']"

definition second_shape_accepted :: "reply list world" where
  "second_shape_accepted =
    hub_world Map.empty [Http_error 400 ''no schema'', Ok_json (JObj [(''spec'', JObj [(''id'', JStr ''new'')])]),
                         Ok_json (JObj [(''id'', JStr ''other'')])]"

definition lenient_put :: "reply list world" where
  "lenient_put = hub_world Map.empty [Ok_empty, Ok_json (JObj [(''id'', JStr ''x'')])]"

definition slow_then_fine :: "reply list world" where
  "slow_then_fine = hub_world Map.empty [Timed_out, Ok_json (JObj [(''id'', JStr ''new'')])]"

definition odd_envelope :: "reply list world" where
  "odd_envelope =
    hub_world Map.empty [Ok_json (JObj [(''id'', JInt 7)]), Ok_json (JArr [JStr ''spec'']),
                         Ok_json (JObj [(''spec'', JObj [(''id'', JStr ''new'')])])]"

definition local_args :: args where
  "local_args =
    \<lparr>workspace_id = ''ws'', local_spec = Some ''in.yaml'', region = None, rest_api_id = None,
     stage_name = None, spec_name = ''Y'', out = ''openapi.yaml''\<rparr>"

definition bare_listing :: "reply list world" where
  "bare_listing =
    hub_world Map.empty [Ok_json (JObj [(''message'', JStr ''ok'')]), Ok_json (JObj [(''id'', JStr ''new'')])]"

definition two_refs :: "string \<Rightarrow> json list" where
  "two_refs first_id =
    [JObj [(''id'', JStr first_id), (''name'', JStr ''Y'')], JObj [(''id'', JStr ''b''), (''name'', JStr ''Y'')]]"

definition listing :: "json list \<Rightarrow> reply" where
  "listing refs = Ok_json (JObj [(''specs'', JArr refs)])"

definition export_args :: args where
  "export_args =
    \<lparr>workspace_id = ''ws'', local_spec = None, region = Some ''us-east-1'',
     rest_api_id = Some ''yvzmor0d68'', stage_name = None, spec_name = ''Y'', out = ''openapi.yaml''\<rparr>"

definition crlf_file :: "string \<rightharpoonup> file_data" where
  "crlf_file = [''in.yaml'' \<mapsto> Text [CHR ''a'', CR, LF, CHR ''b'']]"


definition fresh_hub :: "reply list" where
  "fresh_hub = [listing [], Ok_json (JObj [(''id'', JStr ''new'')]), Ok_json (JObj [(''status'', JStr ''queued'')])]"

definition dotted_args :: args where
  "dotted_args = local_args\<lparr>local_spec := Some ''./in.yaml'', out := ''in.yaml''\<rparr>"

definition dotted_world :: "reply list world" where
  "dotted_world =
    (hub_world crlf_file fresh_hub)
      \<lparr>realpath := (\<lambda>path. if path = ''./in.yaml'' then ''in.yaml'' else path)\<rparr>"



section \<open>Facts about the client\<close>

lemmas run_defs = hub_world_def create_attempt_def update_attempt_def http_json_def
  payload_variants_def extract_spec_id_def py_and_def Let_def

lemma http_json_world:
  "snd (http_json m u k b w) =
     w\<lparr>hub := snd (serve w (hub w) \<lparr>req_method = m, req_url = u, req_key = k, req_body = b\<rparr>),
        log := log w @ [Http \<lparr>req_method = m, req_url = u, req_key = k, req_body = b\<rparr>]\<rparr>"
  by (simp add: http_json_def Let_def split: prod.split reply.split)

lemma http_json_is_Exception: "fst (http_json m u k b w) = Inl e \<Longrightarrow> is_Exception e"
  by (auto simp: http_json_def Let_def split: prod.splits reply.splits)

lemma py_and_is_Exception:
  "py_and x y = Inl e \<Longrightarrow> (\<And>e. x = Inl e \<Longrightarrow> is_Exception e) \<Longrightarrow> (\<And>e. y = Inl e \<Longrightarrow> is_Exception e) \<Longrightarrow> is_Exception e"
  by (auto simp: py_and_def split: sum.splits bool.splits)

lemma py_in_is_Exception: "py_in k j = Inl e \<Longrightarrow> is_Exception e"
  by (cases j) auto

lemma py_getitem_is_Exception: "py_getitem j k = Inl e \<Longrightarrow> is_Exception e"
  by (cases j) (auto split: option.splits)

lemma extract_spec_id_is_Exception: "extract_spec_id resp = Inl e \<Longrightarrow> is_Exception e"
  by (auto simp: extract_spec_id_def py_and_def split: sum.splits bool.splits dest: py_in_is_Exception py_getitem_is_Exception)

lemma create_attempt_is_Exception: "create_attempt u k b w = (Inl e, w') \<Longrightarrow> is_Exception e"
  using http_json_is_Exception[of "''POST''" u k "Some b" w] extract_spec_id_is_Exception
  by (auto simp: create_attempt_def split: prod.splits sum.splits)

lemma create_attempt_log: "log (snd (create_attempt u k b w)) = log w @ [post u k b]"
  using http_json_world[of "''POST''" u k "Some b" w]
  by (auto simp: create_attempt_def post_def split: prod.splits sum.splits)

lemma update_attempt_is_Exception: "update_attempt u k b w = (Inl e, w') \<Longrightarrow> is_Exception e"
  using http_json_is_Exception[of "''PUT''" u k "Some b" w]
  by (auto simp: update_attempt_def split: prod.splits sum.splits)

lemma update_attempt_log: "log (snd (update_attempt u k b w)) = log w @ [put u k b]"
  using http_json_world[of "''PUT''" u k "Some b" w]
  by (auto simp: update_attempt_def put_def split: prod.splits sum.splits)

lemma create_all_fail_log:
  "all_fail (map (create_attempt u k) bs) w = Some (es, w') \<Longrightarrow>
     log w' = log w @ map (post u k) bs \<and> length es = length bs"
proof (induction bs arbitrary: w es)
  case Nil
  then show ?case by simp
next
  case (Cons b bs)
  from Cons.prems obtain e w1 es1 where
    a: "create_attempt u k b w = (Inl e, w1)" and
    r: "all_fail (map (create_attempt u k) bs) w1 = Some (es1, w')" and
    es: "es = e # es1"
    by (auto split: prod.splits sum.splits option.splits)
  from a have "log w1 = log w @ [post u k b]"
    using create_attempt_log[of u k b w] by simp
  with Cons.IH[OF r] es show ?case by simp
qed

lemma create_loop_all_fail:
  "all_fail (map (create_attempt u k) bs) w = Some (es, w') \<Longrightarrow>
     create_loop u k n bs le w =
       (Inl (RuntimeError (Failed_to_create n (if es = [] then le else Some (last es)))), w')"
proof (induction bs arbitrary: w es le)
  case Nil
  then show ?case by simp
next
  case (Cons b bs)
  from Cons.prems obtain e w1 es1 where
    a: "create_attempt u k b w = (Inl e, w1)" and
    r: "all_fail (map (create_attempt u k) bs) w1 = Some (es1, w')" and
    es: "es = e # es1"
    by (auto split: prod.splits sum.splits option.splits)
  have "create_loop u k n (b # bs) le w = create_loop u k n bs (Some e) w1"
    using a create_attempt_is_Exception[OF a] by simp
  with Cons.IH[OF r, of "Some e"] es show ?case by simp
qed

lemma create_loop_first_success:
  "all_fail (map (create_attempt u k) pre) w = Some (es, w1) \<Longrightarrow>
   create_attempt u k b w1 = (Inr sid, w2) \<Longrightarrow>
     create_loop u k n (pre @ b # rest) le w = (Inr sid, w2)"
proof (induction pre arbitrary: w es le)
  case Nil
  then show ?case by simp
next
  case (Cons p pre)
  from Cons.prems(1) obtain e w0 es1 where
    a: "create_attempt u k p w = (Inl e, w0)" and
    r: "all_fail (map (create_attempt u k) pre) w0 = Some (es1, w1)"
    by (auto split: prod.splits sum.splits option.splits)
  have "create_loop u k n ((p # pre) @ b # rest) le w = create_loop u k n (pre @ b # rest) (Some e) w0"
    using a create_attempt_is_Exception[OF a] by simp
  with Cons.IH[OF r Cons.prems(2), of "Some e"] show ?case by simp
qed

lemma create_loop_cases:
  "\<exists>j es w1. j \<le> length bs \<and> all_fail (map (create_attempt u k) (take j bs)) w = Some (es, w1) \<and>
     (if j = length bs
      then create_loop u k n bs le w =
             (Inl (RuntimeError (Failed_to_create n (if es = [] then le else Some (last es)))), w1)
      else \<exists>sid w2. create_attempt u k (bs ! j) w1 = (Inr sid, w2) \<and>
             create_loop u k n bs le w = (Inr sid, w2))"
proof (induction bs arbitrary: w le)
  case Nil
  show ?case by simp
next
  case (Cons b bs)
  show ?case
  proof (cases "create_attempt u k b w")
    case (Pair r w0)
    show ?thesis
    proof (cases r)
      case (Inr sid)
      with Pair have "create_attempt u k ((b # bs) ! 0) w = (Inr sid, w0)"
        and "create_loop u k n (b # bs) le w = (Inr sid, w0)" by simp_all
      then show ?thesis
        by (intro exI[of _ 0] exI[of _ "[]"] exI[of _ w]) auto
    next
      case (Inl e)
      with Pair have a: "create_attempt u k b w = (Inl e, w0)" by simp
      have step: "create_loop u k n (b # bs) le w = create_loop u k n bs (Some e) w0"
        using a create_attempt_is_Exception[OF a] by simp
      from Cons.IH[of w0 "Some e"] obtain j es w1 where
        j: "j \<le> length bs" and
        f: "all_fail (map (create_attempt u k) (take j bs)) w0 = Some (es, w1)" and
        c: "if j = length bs
            then create_loop u k n bs (Some e) w0 =
                   (Inl (RuntimeError (Failed_to_create n (if es = [] then Some e else Some (last es)))), w1)
            else \<exists>sid w2. create_attempt u k (bs ! j) w1 = (Inr sid, w2) \<and>
                   create_loop u k n bs (Some e) w0 = (Inr sid, w2)"
        by blast
      have f': "all_fail (map (create_attempt u k) (take (Suc j) (b # bs))) w = Some (e # es, w1)"
        using a f by simp
      show ?thesis
        using j f' c step
        by (intro exI[of _ "Suc j"] exI[of _ "e # es"] exI[of _ w1]) (auto split: if_splits)
    qed
  qed
qed

lemma update_all_fail_log:
  "all_fail (map (update_attempt u k) bs) w = Some (es, w') \<Longrightarrow>
     log w' = log w @ map (put u k) bs \<and> length es = length bs"
proof (induction bs arbitrary: w es)
  case Nil
  then show ?case by simp
next
  case (Cons b bs)
  from Cons.prems obtain e w1 es1 where
    a: "update_attempt u k b w = (Inl e, w1)" and
    r: "all_fail (map (update_attempt u k) bs) w1 = Some (es1, w')" and
    es: "es = e # es1"
    by (auto split: prod.splits sum.splits option.splits)
  from a have "log w1 = log w @ [put u k b]"
    using update_attempt_log[of u k b w] by simp
  with Cons.IH[OF r] es show ?case by simp
qed

lemma update_loop_cases:
  "\<exists>j es w1. j \<le> length bs \<and> all_fail (map (update_attempt u k) (take j bs)) w = Some (es, w1) \<and>
     (if j = length bs
      then update_loop u k sid bs le w =
             (Inl (RuntimeError (Failed_to_update sid (if es = [] then le else Some (last es)))), w1)
      else \<exists>w2. update_attempt u k (bs ! j) w1 = (Inr (), w2) \<and>
             update_loop u k sid bs le w = (Inr (), w2))"
proof (induction bs arbitrary: w le)
  case Nil
  show ?case by simp
next
  case (Cons b bs)
  show ?case
  proof (cases "update_attempt u k b w")
    case (Pair r w0)
    show ?thesis
    proof (cases r)
      case (Inr x)
      with Pair have "update_attempt u k ((b # bs) ! 0) w = (Inr (), w0)"
        and "update_loop u k sid (b # bs) le w = (Inr (), w0)" by simp_all
      then show ?thesis
        by (intro exI[of _ 0] exI[of _ "[]"] exI[of _ w]) auto
    next
      case (Inl e)
      with Pair have a: "update_attempt u k b w = (Inl e, w0)" by simp
      have step: "update_loop u k sid (b # bs) le w = update_loop u k sid bs (Some e) w0"
        using a update_attempt_is_Exception[OF a] by simp
      from Cons.IH[of w0 "Some e"] obtain j es w1 where
        j: "j \<le> length bs" and
        f: "all_fail (map (update_attempt u k) (take j bs)) w0 = Some (es, w1)" and
        c: "if j = length bs
            then update_loop u k sid bs (Some e) w0 =
                   (Inl (RuntimeError (Failed_to_update sid (if es = [] then Some e else Some (last es)))), w1)
            else \<exists>w2. update_attempt u k (bs ! j) w1 = (Inr (), w2) \<and>
                   update_loop u k sid bs (Some e) w0 = (Inr (), w2)"
        by blast
      have f': "all_fail (map (update_attempt u k) (take (Suc j) (b # bs))) w = Some (e # es, w1)"
        using a f by simp
      show ?thesis
        using j f' c step
        by (intro exI[of _ "Suc j"] exI[of _ "e # es"] exI[of _ w1]) (auto split: if_splits)
    qed
  qed
qed

lemma update_loop_all_fail:
  "all_fail (map (update_attempt u k) bs) w = Some (es, w') \<Longrightarrow>
     update_loop u k sid bs le w =
       (Inl (RuntimeError (Failed_to_update sid (if es = [] then le else Some (last es)))), w')"
proof (induction bs arbitrary: w es le)
  case Nil
  then show ?case by simp
next
  case (Cons b bs)
  from Cons.prems obtain e w1 es1 where
    a: "update_attempt u k b w = (Inl e, w1)" and
    r: "all_fail (map (update_attempt u k) bs) w1 = Some (es1, w')" and
    es: "es = e # es1"
    by (auto split: prod.splits sum.splits option.splits)
  have "update_loop u k sid (b # bs) le w = update_loop u k sid bs (Some e) w1"
    using a update_attempt_is_Exception[OF a] by simp
  with Cons.IH[OF r, of "Some e"] es show ?case by simp
qed

lemma update_loop_first_success:
  "all_fail (map (update_attempt u k) pre) w = Some (es, w1) \<Longrightarrow>
   update_attempt u k b w1 = (Inr x, w2) \<Longrightarrow>
     update_loop u k sid (pre @ b # rest) le w = (Inr (), w2)"
proof (induction pre arbitrary: w es le)
  case Nil
  then show ?case by simp
next
  case (Cons p pre)
  from Cons.prems(1) obtain e w0 es1 where
    a: "update_attempt u k p w = (Inl e, w0)" and
    r: "all_fail (map (update_attempt u k) pre) w0 = Some (es1, w1)"
    by (auto split: prod.splits sum.splits option.splits)
  have "update_loop u k sid ((p # pre) @ b # rest) le w = update_loop u k sid (pre @ b # rest) (Some e) w0"
    using a update_attempt_is_Exception[OF a] by simp
  with Cons.IH[OF r Cons.prems(2), of "Some e"] show ?case by simp
qed

lemma length_payload_variants: "length (payload_variants name y) = 3"
  by (simp add: payload_variants_def)

section \<open>Exhaustion of the variants\<close>

text \<open>
  C3. When all three body shapes fail, \<^verbatim>\<open>create_spec\<close> and \<^verbatim>\<open>update_spec\<close> have each
  issued exactly three requests, one per shape and in order, and raise one
  \<^verbatim>\<open>RuntimeError\<close> whose message and cause are the error of the third attempt; the
  errors of the first two attempts appear nowhere in it.
\<close>

theorem exhaustion_raises_one_aggregate_error:
  "(all_fail (map (create_attempt (Specs_url wid) k) (payload_variants name y)) w = Some (es, w') \<longrightarrow>
      create_spec wid k name y w = (Inl (RuntimeError (Failed_to_create 3 (Some (last es)))), w') \<and>
      length es = 3 \<and>
      log w' = log w @ [post (Specs_url wid) k (variant_A name y),
                        post (Specs_url wid) k (variant_B name y),
                        post (Specs_url wid) k (variant_C name y)]) \<and>
   (all_fail (map (update_attempt (Spec_url sid) k) (payload_variants name y)) v = Some (fs, v') \<longrightarrow>
      update_spec sid k name y v = (Inl (RuntimeError (Failed_to_update sid (Some (last fs)))), v') \<and>
      length fs = 3 \<and>
      log v' = log v @ [put (Spec_url sid) k (variant_A name y),
                        put (Spec_url sid) k (variant_B name y),
                        put (Spec_url sid) k (variant_C name y)])"
proof (intro conjI impI)
  assume a: "all_fail (map (create_attempt (Specs_url wid) k) (payload_variants name y)) w = Some (es, w')"
  from create_all_fail_log[OF a] show len: "length es = 3"
    by (simp add: length_payload_variants)
  from create_all_fail_log[OF a]
  show "log w' = log w @ [post (Specs_url wid) k (variant_A name y),
                          post (Specs_url wid) k (variant_B name y),
                          post (Specs_url wid) k (variant_C name y)]"
    by (simp add: payload_variants_def)
  from len have "es \<noteq> []" by auto
  with create_loop_all_fail[OF a, of 3 None]
  show "create_spec wid k name y w = (Inl (RuntimeError (Failed_to_create 3 (Some (last es)))), w')"
    by (simp add: create_spec_def length_payload_variants)
next
  assume a: "all_fail (map (update_attempt (Spec_url sid) k) (payload_variants name y)) v = Some (fs, v')"
  from update_all_fail_log[OF a] show len: "length fs = 3"
    by (simp add: length_payload_variants)
  from update_all_fail_log[OF a]
  show "log v' = log v @ [put (Spec_url sid) k (variant_A name y),
                          put (Spec_url sid) k (variant_B name y),
                          put (Spec_url sid) k (variant_C name y)]"
    by (simp add: payload_variants_def)
  from len have "fs \<noteq> []" by auto
  with update_loop_all_fail[OF a, of sid None]
  show "update_spec sid k name y v = (Inl (RuntimeError (Failed_to_update sid (Some (last fs)))), v')"
    by (simp add: update_spec_def)
qed

theorem exhaustion_raises_one_aggregate_error_witness:
  "fst (create_spec ''ws'' ''PMAK-1'' ''Y'' ''openapi: 3.0.0'' rejecting) =
     Inl (RuntimeError (Failed_to_create 3
       (Some (RuntimeError (HTTP_calling 500 (Specs_url ''ws'') ''down''))))) \<and>
   length (log (snd (create_spec ''ws'' ''PMAK-1'' ''Y'' ''openapi: 3.0.0'' rejecting))) = 3 \<and>
   fst (update_spec (JStr ''a'') ''PMAK-1'' ''Y'' ''openapi: 3.0.0'' rejecting) =
     Inl (RuntimeError (Failed_to_update (JStr ''a'')
       (Some (RuntimeError (HTTP_calling 500 (Spec_url (JStr ''a'')) ''down''))))) \<and>
   length (log (snd (update_spec (JStr ''a'') ''PMAK-1'' ''Y'' ''openapi: 3.0.0'' rejecting))) = 3"
proof -
  let ?c = "RuntimeError (HTTP_calling 500 (Specs_url ''ws'') ''down'')"
  let ?u = "RuntimeError (HTTP_calling 500 (Spec_url (JStr ''a'')) ''down'')"
  obtain w' where c: "all_fail (map (create_attempt (Specs_url ''ws'') ''PMAK-1'')
        (payload_variants ''Y'' ''openapi: 3.0.0'')) rejecting =
      Some ([RuntimeError (HTTP_calling 400 (Specs_url ''ws'') ''no schema''), JSONDecodeError, ?c], w')"
    by (simp add: rejecting_def run_defs)
  obtain v' where u: "all_fail (map (update_attempt (Spec_url (JStr ''a'')) ''PMAK-1'')
        (payload_variants ''Y'' ''openapi: 3.0.0'')) rejecting =
      Some ([RuntimeError (HTTP_calling 400 (Spec_url (JStr ''a'')) ''no schema''), JSONDecodeError, ?u], v')"
    by (simp add: rejecting_def run_defs)
  have "log rejecting = []" by (simp add: rejecting_def hub_world_def)
  with exhaustion_raises_one_aggregate_error
         [of "''ws''" "''PMAK-1''" "''Y''" "''openapi: 3.0.0''" rejecting _ w' "JStr ''a''" rejecting _ v']
       c u
  show ?thesis by simp
qed

section \<open>First success wins\<close>

lemma nth_payload_variants:
  "j < 3 \<Longrightarrow> payload_variants name y = take j (payload_variants name y) @ (payload_variants name y ! j) # drop (Suc j) (payload_variants name y)"
  by (simp add: id_take_nth_drop length_payload_variants)

text \<open>
  C2, as the code has it. Let shape \<open>j + 1\<close> be the first whose attempt succeeds, the
  \<open>j\<close> shapes before it having failed one after the other. For \<^verbatim>\<open>create_spec\<close> an
  attempt succeeds when the request does and an identifier can be extracted from the
  response: the executor then has issued exactly \<open>j + 1\<close> requests, for the first
  \<open>j + 1\<close> shapes in order, and returns that identifier. For \<^verbatim>\<open>update_spec\<close> an attempt
  succeeds as soon as the request does, no identifier is looked for and none is
  returned: again exactly \<open>j + 1\<close> requests. In both, no later shape is tried.
\<close>

theorem first_success_wins:
  "(j < 3 \<and>
    all_fail (map (create_attempt (Specs_url wid) k) (take j (payload_variants name y))) w = Some (es, w1) \<and>
    create_attempt (Specs_url wid) k (payload_variants name y ! j) w1 = (Inr sid, w2) \<longrightarrow>
      create_spec wid k name y w = (Inr sid, w2) \<and>
      log w2 = log w @ map (post (Specs_url wid) k) (take (Suc j) (payload_variants name y)) \<and>
      length (log w2) = length (log w) + Suc j) \<and>
   (i < 3 \<and>
    all_fail (map (update_attempt (Spec_url target) k) (take i (payload_variants name y))) v = Some (fs, v1) \<and>
    update_attempt (Spec_url target) k (payload_variants name y ! i) v1 = (Inr (), v2) \<longrightarrow>
      update_spec target k name y v = (Inr (), v2) \<and>
      log v2 = log v @ map (put (Spec_url target) k) (take (Suc i) (payload_variants name y)) \<and>
      length (log v2) = length (log v) + Suc i)"
proof (intro conjI impI; elim conjE)
  let ?vs = "payload_variants name y"
  assume j: "j < 3"
    and f: "all_fail (map (create_attempt (Specs_url wid) k) (take j ?vs)) w = Some (es, w1)"
    and s: "create_attempt (Specs_url wid) k (?vs ! j) w1 = (Inr sid, w2)"
  have "create_loop (Specs_url wid) k 3 (take j ?vs @ (?vs ! j) # drop (Suc j) ?vs) None w = (Inr sid, w2)"
    by (rule create_loop_first_success[OF f s])
  then show "create_spec wid k name y w = (Inr sid, w2)"
    using nth_payload_variants[OF j, of name y] by (simp add: create_spec_def length_payload_variants)
  have "log w2 = log w1 @ [post (Specs_url wid) k (?vs ! j)]"
    using create_attempt_log[of "Specs_url wid" k "?vs ! j" w1] s by simp
  with create_all_fail_log[OF f] j
  show l: "log w2 = log w @ map (post (Specs_url wid) k) (take (Suc j) ?vs)"
    by (simp add: take_Suc_conv_app_nth length_payload_variants)
  from j show "length (log w2) = length (log w) + Suc j"
    by (simp add: l length_payload_variants)
next
  let ?vs = "payload_variants name y"
  assume i: "i < 3"
    and f: "all_fail (map (update_attempt (Spec_url target) k) (take i ?vs)) v = Some (fs, v1)"
    and s: "update_attempt (Spec_url target) k (?vs ! i) v1 = (Inr (), v2)"
  have "update_loop (Spec_url target) k target (take i ?vs @ (?vs ! i) # drop (Suc i) ?vs) None v = (Inr (), v2)"
    by (rule update_loop_first_success[OF f s])
  then show "update_spec target k name y v = (Inr (), v2)"
    using nth_payload_variants[OF i, of name y] by (simp add: update_spec_def)
  have "log v2 = log v1 @ [put (Spec_url target) k (?vs ! i)]"
    using update_attempt_log[of "Spec_url target" k "?vs ! i" v1] s by simp
  with update_all_fail_log[OF f] i
  show l: "log v2 = log v @ map (put (Spec_url target) k) (take (Suc i) ?vs)"
    by (simp add: take_Suc_conv_app_nth length_payload_variants)
  from i show "length (log v2) = length (log v) + Suc i"
    by (simp add: l length_payload_variants)
qed

theorem first_success_wins_witness:
  "fst (create_spec ''ws'' ''PMAK-1'' ''Y'' ''openapi: 3.0.0'' second_shape_accepted) = Inr (JStr ''new'') \<and>
   log (snd (create_spec ''ws'' ''PMAK-1'' ''Y'' ''openapi: 3.0.0'' second_shape_accepted)) =
     [post (Specs_url ''ws'') ''PMAK-1'' (variant_A ''Y'' ''openapi: 3.0.0''),
      post (Specs_url ''ws'') ''PMAK-1'' (variant_B ''Y'' ''openapi: 3.0.0'')] \<and>
   fst (update_spec (JStr ''a'') ''PMAK-1'' ''Y'' ''openapi: 3.0.0'' second_shape_accepted) = Inr () \<and>
   log (snd (update_spec (JStr ''a'') ''PMAK-1'' ''Y'' ''openapi: 3.0.0'' second_shape_accepted)) =
     [put (Spec_url (JStr ''a'')) ''PMAK-1'' (variant_A ''Y'' ''openapi: 3.0.0''),
      put (Spec_url (JStr ''a'')) ''PMAK-1'' (variant_B ''Y'' ''openapi: 3.0.0'')]"
proof -
  let ?vs = "payload_variants ''Y'' ''openapi: 3.0.0''"
  obtain w1 where c1: "all_fail (map (create_attempt (Specs_url ''ws'') ''PMAK-1'') (take 1 ?vs)) second_shape_accepted =
      Some ([RuntimeError (HTTP_calling 400 (Specs_url ''ws'') ''no schema'')], w1)"
    and c2: "\<exists>w2. create_attempt (Specs_url ''ws'') ''PMAK-1'' (?vs ! 1) w1 = (Inr (JStr ''new''), w2)"
    by (simp add: second_shape_accepted_def run_defs)
  from c2 obtain w2 where c3: "create_attempt (Specs_url ''ws'') ''PMAK-1'' (?vs ! 1) w1 = (Inr (JStr ''new''), w2)" ..
  obtain v1 where u1: "all_fail (map (update_attempt (Spec_url (JStr ''a'')) ''PMAK-1'') (take 1 ?vs)) second_shape_accepted =
      Some ([RuntimeError (HTTP_calling 400 (Spec_url (JStr ''a'')) ''no schema'')], v1)"
    and u2: "\<exists>v2. update_attempt (Spec_url (JStr ''a'')) ''PMAK-1'' (?vs ! 1) v1 = (Inr (), v2)"
    by (simp add: second_shape_accepted_def run_defs)
  from u2 obtain v2 where u3: "update_attempt (Spec_url (JStr ''a'')) ''PMAK-1'' (?vs ! 1) v1 = (Inr (), v2)" ..
  have l: "log second_shape_accepted = []" by (simp add: second_shape_accepted_def hub_world_def)
  from first_success_wins[of 1 "''ws''" "''PMAK-1''" "''Y''" "''openapi: 3.0.0''" second_shape_accepted _ w1 "JStr ''new''" w2
         1 "JStr ''a''" second_shape_accepted _ v1 v2] c1 c3 u1 u3 l
  show ?thesis by (simp add: payload_variants_def)
qed

text \<open>
  The claim as stated also covers \<^verbatim>\<open>update_spec\<close>, and there it fails: the first
  \<^verbatim>\<open>PUT\<close> is answered with an empty body, which holds no identifier, the second would
  be answered with one; the executor stops after one request.
\<close>

theorem first_success_wins_counterexample:
  "extract_spec_id (JObj []) = Inl (RuntimeError (Unexpected_spec_response (JObj []))) \<and>
   extract_spec_id (JObj [(''id'', JStr ''x'')]) = Inr (JStr ''x'') \<and>
   fst (update_spec (JStr ''a'') ''PMAK-1'' ''Y'' ''openapi: 3.0.0'' lenient_put) = Inr () \<and>
   log (snd (update_spec (JStr ''a'') ''PMAK-1'' ''Y'' ''openapi: 3.0.0'' lenient_put)) =
     [put (Spec_url (JStr ''a'')) ''PMAK-1'' (variant_A ''Y'' ''openapi: 3.0.0'')] \<and>
   hub (snd (update_spec (JStr ''a'') ''PMAK-1'' ''Y'' ''openapi: 3.0.0'' lenient_put)) =
     [Ok_json (JObj [(''id'', JStr ''x'')])]"
  by (simp add: lenient_put_def update_spec_def put_def run_defs)

section \<open>When the next variant is tried\<close>

lemma create_spec_cases:
  "\<exists>j es w1. j \<le> 3 \<and>
     all_fail (map (create_attempt (Specs_url wid) k) (take j (payload_variants name y))) w = Some (es, w1) \<and>
     (if j = 3
      then create_spec wid k name y w = (Inl (RuntimeError (Failed_to_create 3 (Some (last es)))), w1)
      else \<exists>sid w2. create_attempt (Specs_url wid) k (payload_variants name y ! j) w1 = (Inr sid, w2) \<and>
             create_spec wid k name y w = (Inr sid, w2)) \<and>
     log (snd (create_spec wid k name y w)) =
       log w @ map (post (Specs_url wid) k) (take (Suc j) (payload_variants name y))"
proof -
  let ?vs = "payload_variants name y" and ?u = "Specs_url wid"
  from create_loop_cases[of ?vs ?u k w 3 None] obtain j es w1 where
    j: "j \<le> 3" and
    f: "all_fail (map (create_attempt ?u k) (take j ?vs)) w = Some (es, w1)" and
    c: "if j = 3
        then create_loop ?u k 3 ?vs None w =
               (Inl (RuntimeError (Failed_to_create 3 (if es = [] then None else Some (last es)))), w1)
        else \<exists>sid w2. create_attempt ?u k (?vs ! j) w1 = (Inr sid, w2) \<and>
               create_loop ?u k 3 ?vs None w = (Inr sid, w2)"
    by (auto simp: length_payload_variants)
  note l = create_all_fail_log[OF f]
  show ?thesis
  proof (cases "j = 3")
    case True
    with l have "es \<noteq> []" by (auto simp: length_payload_variants)
    with True c l f show ?thesis
      by (intro exI[of _ 3] exI[of _ es] exI[of _ w1])
         (simp add: create_spec_def length_payload_variants)
  next
    case False
    with c obtain sid w2 where
      a: "create_attempt ?u k (?vs ! j) w1 = (Inr sid, w2)" and
      r: "create_loop ?u k 3 ?vs None w = (Inr sid, w2)" by auto
    have "log w2 = log w1 @ [post ?u k (?vs ! j)]"
      using create_attempt_log[of ?u k "?vs ! j" w1] a by simp
    with l False j have "log w2 = log w @ map (post ?u k) (take (Suc j) ?vs)"
      by (simp add: take_Suc_conv_app_nth length_payload_variants)
    with False j f a r show ?thesis
      by (intro exI[of _ j] exI[of _ es] exI[of _ w1])
         (simp add: create_spec_def length_payload_variants)
  qed
qed

lemma update_spec_cases:
  "\<exists>j es w1. j \<le> 3 \<and>
     all_fail (map (update_attempt (Spec_url sid) k) (take j (payload_variants name y))) w = Some (es, w1) \<and>
     (if j = 3
      then update_spec sid k name y w = (Inl (RuntimeError (Failed_to_update sid (Some (last es)))), w1)
      else \<exists>w2. update_attempt (Spec_url sid) k (payload_variants name y ! j) w1 = (Inr (), w2) \<and>
             update_spec sid k name y w = (Inr (), w2)) \<and>
     log (snd (update_spec sid k name y w)) =
       log w @ map (put (Spec_url sid) k) (take (Suc j) (payload_variants name y))"
proof -
  let ?vs = "payload_variants name y" and ?u = "Spec_url sid"
  from update_loop_cases[of ?vs ?u k w sid None] obtain j es w1 where
    j: "j \<le> 3" and
    f: "all_fail (map (update_attempt ?u k) (take j ?vs)) w = Some (es, w1)" and
    c: "if j = 3
        then update_loop ?u k sid ?vs None w =
               (Inl (RuntimeError (Failed_to_update sid (if es = [] then None else Some (last es)))), w1)
        else \<exists>w2. update_attempt ?u k (?vs ! j) w1 = (Inr (), w2) \<and>
               update_loop ?u k sid ?vs None w = (Inr (), w2)"
    by (auto simp: length_payload_variants)
  note l = update_all_fail_log[OF f]
  show ?thesis
  proof (cases "j = 3")
    case True
    with l have "es \<noteq> []" by (auto simp: length_payload_variants)
    with True c l f show ?thesis
      by (intro exI[of _ 3] exI[of _ es] exI[of _ w1])
         (simp add: update_spec_def length_payload_variants)
  next
    case False
    with c obtain w2 where
      a: "update_attempt ?u k (?vs ! j) w1 = (Inr (), w2)" and
      r: "update_loop ?u k sid ?vs None w = (Inr (), w2)" by auto
    have "log w2 = log w1 @ [put ?u k (?vs ! j)]"
      using update_attempt_log[of ?u k "?vs ! j" w1] a by simp
    with l False j have "log w2 = log w @ map (put ?u k) (take (Suc j) ?vs)"
      by (simp add: take_Suc_conv_app_nth length_payload_variants)
    with False j f a r show ?thesis
      by (intro exI[of _ j] exI[of _ es] exI[of _ w1])
         (simp add: update_spec_def length_payload_variants)
  qed
qed

lemma http_json_timeout:
  "fst (serve w (hub w) \<lparr>req_method = m, req_url = u, req_key = k, req_body = b\<rparr>) = Timed_out \<Longrightarrow>
     fst (http_json m u k b w) = Inl TimeoutError"
  by (cases "serve w (hub w) \<lparr>req_method = m, req_url = u, req_key = k, req_body = b\<rparr>")
     (simp add: http_json_def Let_def)

text \<open>
  C4, as the code has it. The run of either executor is a number \<open>j\<close> of attempts that
  raised, one after the other, followed by one attempt that returned (and then nothing
  more is requested) or, when \<open>j = 3\<close>, by the aggregate error: a shape is tried only
  after every shape before it has raised, and never after one that succeeded. What an
  attempt raises does not matter. A timeout is not told apart: \<^verbatim>\<open>http_json\<close> lets it
  through as the exception it is, the loop catches it as it catches a refusal, and goes
  on to the next shape.
\<close>

theorem next_variant_after_any_failure:
  "(\<exists>j es w1. j \<le> 3 \<and>
      all_fail (map (create_attempt (Specs_url wid) k) (take j (payload_variants name y))) w = Some (es, w1) \<and>
      (if j = 3
       then create_spec wid k name y w = (Inl (RuntimeError (Failed_to_create 3 (Some (last es)))), w1)
       else \<exists>sid w2. create_attempt (Specs_url wid) k (payload_variants name y ! j) w1 = (Inr sid, w2) \<and>
              create_spec wid k name y w = (Inr sid, w2)) \<and>
      log (snd (create_spec wid k name y w)) =
        log w @ map (post (Specs_url wid) k) (take (Suc j) (payload_variants name y))) \<and>
   (\<exists>i fs v1. i \<le> 3 \<and>
      all_fail (map (update_attempt (Spec_url target) k) (take i (payload_variants name y))) v = Some (fs, v1) \<and>
      (if i = 3
       then update_spec target k name y v = (Inl (RuntimeError (Failed_to_update target (Some (last fs)))), v1)
       else \<exists>v2. update_attempt (Spec_url target) k (payload_variants name y ! i) v1 = (Inr (), v2) \<and>
              update_spec target k name y v = (Inr (), v2)) \<and>
      log (snd (update_spec target k name y v)) =
        log v @ map (put (Spec_url target) k) (take (Suc i) (payload_variants name y))) \<and>
   (fst (serve x (hub x) \<lparr>req_method = ''POST'', req_url = u, req_key = k, req_body = Some body\<rparr>) = Timed_out \<longrightarrow>
      fst (create_attempt u k body x) = Inl TimeoutError \<and>
      create_loop u k n (body # rest) last_err x =
        create_loop u k n rest (Some TimeoutError) (snd (create_attempt u k body x))) \<and>
   (fst (serve x (hub x) \<lparr>req_method = ''PUT'', req_url = u, req_key = k, req_body = Some body\<rparr>) = Timed_out \<longrightarrow>
      fst (update_attempt u k body x) = Inl TimeoutError \<and>
      update_loop u k target (body # rest) last_err x =
        update_loop u k target rest (Some TimeoutError) (snd (update_attempt u k body x)))"
proof (intro conjI impI)
  show "\<exists>j es w1. j \<le> 3 \<and>
      all_fail (map (create_attempt (Specs_url wid) k) (take j (payload_variants name y))) w = Some (es, w1) \<and>
      (if j = 3
       then create_spec wid k name y w = (Inl (RuntimeError (Failed_to_create 3 (Some (last es)))), w1)
       else \<exists>sid w2. create_attempt (Specs_url wid) k (payload_variants name y ! j) w1 = (Inr sid, w2) \<and>
              create_spec wid k name y w = (Inr sid, w2)) \<and>
      log (snd (create_spec wid k name y w)) =
        log w @ map (post (Specs_url wid) k) (take (Suc j) (payload_variants name y))"
    by (rule create_spec_cases)
  show "\<exists>i fs v1. i \<le> 3 \<and>
      all_fail (map (update_attempt (Spec_url target) k) (take i (payload_variants name y))) v = Some (fs, v1) \<and>
      (if i = 3
       then update_spec target k name y v = (Inl (RuntimeError (Failed_to_update target (Some (last fs)))), v1)
       else \<exists>v2. update_attempt (Spec_url target) k (payload_variants name y ! i) v1 = (Inr (), v2) \<and>
              update_spec target k name y v = (Inr (), v2)) \<and>
      log (snd (update_spec target k name y v)) =
        log v @ map (put (Spec_url target) k) (take (Suc i) (payload_variants name y))"
    by (rule update_spec_cases)
next
  assume t: "fst (serve x (hub x) \<lparr>req_method = ''POST'', req_url = u, req_key = k, req_body = Some body\<rparr>) = Timed_out"
  from http_json_timeout[OF t]
  show c: "fst (create_attempt u k body x) = Inl TimeoutError"
    by (cases "http_json ''POST'' u k (Some body) x") (simp add: create_attempt_def)
  then show "create_loop u k n (body # rest) last_err x =
      create_loop u k n rest (Some TimeoutError) (snd (create_attempt u k body x))"
    by (cases "create_attempt u k body x") simp
next
  assume t: "fst (serve x (hub x) \<lparr>req_method = ''PUT'', req_url = u, req_key = k, req_body = Some body\<rparr>) = Timed_out"
  from http_json_timeout[OF t]
  show c: "fst (update_attempt u k body x) = Inl TimeoutError"
    by (cases "http_json ''PUT'' u k (Some body) x") (simp add: update_attempt_def)
  then show "update_loop u k target (body # rest) last_err x =
      update_loop u k target rest (Some TimeoutError) (snd (update_attempt u k body x))"
    by (cases "update_attempt u k body x") simp
qed

theorem next_variant_after_any_failure_witness:
  "create_loop (Specs_url ''ws'') ''PMAK-1'' 3 (payload_variants ''Y'' ''openapi: 3.0.0'') None slow_then_fine =
     create_loop (Specs_url ''ws'') ''PMAK-1'' 3 [variant_B ''Y'' ''openapi: 3.0.0'', variant_C ''Y'' ''openapi: 3.0.0'']
       (Some TimeoutError)
       (snd (create_attempt (Specs_url ''ws'') ''PMAK-1'' (variant_A ''Y'' ''openapi: 3.0.0'') slow_then_fine)) \<and>
   update_loop (Spec_url (JStr ''a'')) ''PMAK-1'' (JStr ''a'') (payload_variants ''Y'' ''openapi: 3.0.0'') None slow_then_fine =
     update_loop (Spec_url (JStr ''a'')) ''PMAK-1'' (JStr ''a'') [variant_B ''Y'' ''openapi: 3.0.0'', variant_C ''Y'' ''openapi: 3.0.0'']
       (Some TimeoutError)
       (snd (update_attempt (Spec_url (JStr ''a'')) ''PMAK-1'' (variant_A ''Y'' ''openapi: 3.0.0'') slow_then_fine))"
proof -
  have c: "fst (serve slow_then_fine (hub slow_then_fine)
      \<lparr>req_method = ''POST'', req_url = Specs_url ''ws'', req_key = ''PMAK-1'',
         req_body = Some (variant_A ''Y'' ''openapi: 3.0.0'')\<rparr>) = Timed_out"
    by (simp add: slow_then_fine_def hub_world_def)
  have u: "fst (serve slow_then_fine (hub slow_then_fine)
      \<lparr>req_method = ''PUT'', req_url = Spec_url (JStr ''a''), req_key = ''PMAK-1'',
         req_body = Some (variant_A ''Y'' ''openapi: 3.0.0'')\<rparr>) = Timed_out"
    by (simp add: slow_then_fine_def hub_world_def)
  note t = next_variant_after_any_failure[THEN conjunct2, THEN conjunct2]
  from t[THEN conjunct1, rule_format, OF c, THEN conjunct2,
         of 3 "[variant_B ''Y'' ''openapi: 3.0.0'', variant_C ''Y'' ''openapi: 3.0.0'']" None]
       t[THEN conjunct2, rule_format, OF u, THEN conjunct2,
         of "JStr ''a''" "[variant_B ''Y'' ''openapi: 3.0.0'', variant_C ''Y'' ''openapi: 3.0.0'']" None]
  show ?thesis by (simp add: payload_variants_def)
qed

text \<open>
  The claim as stated fails on a timeout: the first request gets no answer in time,
  nothing is raised to the caller, the second shape is sent and its identifier returned.
\<close>

theorem next_variant_after_any_failure_counterexample:
  "fst (http_json ''POST'' (Specs_url ''ws'') ''PMAK-1'' (Some (variant_A ''Y'' ''openapi: 3.0.0'')) slow_then_fine) =
     Inl TimeoutError \<and>
   fst (create_spec ''ws'' ''PMAK-1'' ''Y'' ''openapi: 3.0.0'' slow_then_fine) = Inr (JStr ''new'') \<and>
   log (snd (create_spec ''ws'' ''PMAK-1'' ''Y'' ''openapi: 3.0.0'' slow_then_fine)) =
     [post (Specs_url ''ws'') ''PMAK-1'' (variant_A ''Y'' ''openapi: 3.0.0''),
      post (Specs_url ''ws'') ''PMAK-1'' (variant_B ''Y'' ''openapi: 3.0.0'')]"
  by (simp add: slow_then_fine_def create_spec_def post_def run_defs)

section \<open>Extracting the identifier\<close>

lemma extract_spec_id_not_dict: "\<not> is_dict resp \<Longrightarrow> \<exists>e. extract_spec_id resp = Inl e"
  by (cases resp) (auto simp: extract_spec_id_def py_and_def split: sum.splits bool.splits)

lemma extract_spec_id_dict:
  "extract_spec_id (JObj kvs) =
    (case map_of kvs ''spec'' of
       Some (JObj sp) \<Rightarrow>
         (case map_of sp ''id'' of
            Some v \<Rightarrow> Inr v
          | None \<Rightarrow>
              (case map_of kvs ''id'' of
                 Some (JStr s) \<Rightarrow> Inr (JStr s)
               | _ \<Rightarrow> Inl (RuntimeError (Unexpected_spec_response (JObj kvs)))))
     | _ \<Rightarrow>
         (case map_of kvs ''id'' of
            Some (JStr s) \<Rightarrow> Inr (JStr s)
          | _ \<Rightarrow> Inl (RuntimeError (Unexpected_spec_response (JObj kvs)))))"
  by (auto simp: extract_spec_id_def py_and_def split: option.splits json.splits)

text \<open>
  C9, as the code has it. \<^verbatim>\<open>_extract_spec_id\<close> returns an identifier from exactly two
  envelopes: a dict whose \<^verbatim>\<open>spec\<close> entry is a dict with an \<^verbatim>\<open>id\<close> entry (that entry is
  returned, whatever it is), or failing that a dict with a top-level \<^verbatim>\<open>id\<close> that is a
  string. On a dict of neither
  shape it raises the \<^verbatim>\<open>RuntimeError\<close> for an unexpected response, and on anything else
  it raises as well. Whatever it raises, the loop of \<^verbatim>\<open>create_spec\<close> keeps it as the last
  error and goes on with the next shape.
\<close>

theorem extraction_accepts_two_envelopes:
  "(extract_spec_id resp = Inr v \<longleftrightarrow>
      (\<exists>kvs. resp = JObj kvs \<and>
         ((\<exists>sp. map_of kvs ''spec'' = Some (JObj sp) \<and> map_of sp ''id'' = Some v) \<or>
          ((\<nexists>sp. map_of kvs ''spec'' = Some (JObj sp) \<and> map_of sp ''id'' \<noteq> None) \<and>
           map_of kvs ''id'' = Some v \<and> is_str v)))) \<and>
   ((\<nexists>v. extract_spec_id (JObj kvs) = Inr v) \<longrightarrow>
      extract_spec_id (JObj kvs) = Inl (RuntimeError (Unexpected_spec_response (JObj kvs)))) \<and>
   (http_json ''POST'' u k (Some body) w = (Inr resp, w1) \<and> extract_spec_id resp = Inl e \<longrightarrow>
      create_loop u k n (body # rest) last_err w = create_loop u k n rest (Some e) w1)"
proof (intro conjI impI)
  show "extract_spec_id resp = Inr v \<longleftrightarrow>
      (\<exists>kvs. resp = JObj kvs \<and>
         ((\<exists>sp. map_of kvs ''spec'' = Some (JObj sp) \<and> map_of sp ''id'' = Some v) \<or>
          ((\<nexists>sp. map_of kvs ''spec'' = Some (JObj sp) \<and> map_of sp ''id'' \<noteq> None) \<and>
           map_of kvs ''id'' = Some v \<and> is_str v)))"
  proof (cases "is_dict resp")
    case False
    with extract_spec_id_not_dict[OF False] show ?thesis by auto
  next
    case True
    then obtain kvs where r: "resp = JObj kvs" by (cases resp) auto
    show ?thesis unfolding r extract_spec_id_dict
      by (auto split: option.splits json.splits)
  qed
next
  assume "\<nexists>v. extract_spec_id (JObj kvs) = Inr v"
  then show "extract_spec_id (JObj kvs) = Inl (RuntimeError (Unexpected_spec_response (JObj kvs)))"
    unfolding extract_spec_id_dict by (auto split: option.splits json.splits)
next
  assume a: "http_json ''POST'' u k (Some body) w = (Inr resp, w1) \<and> extract_spec_id resp = Inl e"
  then have "create_attempt u k body w = (Inl e, w1)"
    by (simp add: create_attempt_def)
  moreover from a have "is_Exception e" by (auto dest: extract_spec_id_is_Exception)
  ultimately show "create_loop u k n (body # rest) last_err w = create_loop u k n rest (Some e) w1"
    by simp
qed

theorem extraction_accepts_two_envelopes_witness:
  "extract_spec_id (JObj [(''id'', JInt 7)]) =
     Inl (RuntimeError (Unexpected_spec_response (JObj [(''id'', JInt 7)]))) \<and>
   create_loop (Specs_url ''ws'') ''PMAK-1'' 3 (payload_variants ''Y'' ''openapi: 3.0.0'') None odd_envelope =
     create_loop (Specs_url ''ws'') ''PMAK-1'' 3
       [variant_B ''Y'' ''openapi: 3.0.0'', variant_C ''Y'' ''openapi: 3.0.0'']
       (Some (RuntimeError (Unexpected_spec_response (JObj [(''id'', JInt 7)]))))
       (snd (http_json ''POST'' (Specs_url ''ws'') ''PMAK-1'' (Some (variant_A ''Y'' ''openapi: 3.0.0'')) odd_envelope)) \<and>
   fst (create_spec ''ws'' ''PMAK-1'' ''Y'' ''openapi: 3.0.0'' odd_envelope) = Inr (JStr ''new'')"
proof -
  let ?r = "JObj [(''id'', JInt 7)]"
  note t = extraction_accepts_two_envelopes[of ?r _ "[(''id'', JInt 7)]"]
  have n: "\<nexists>v. extract_spec_id ?r = Inr v"
    using t[THEN conjunct1] by auto
  from t[THEN conjunct2, THEN conjunct1, rule_format, OF n]
  have x: "extract_spec_id ?r = Inl (RuntimeError (Unexpected_spec_response ?r))" .
  obtain w1 where h: "http_json ''POST'' (Specs_url ''ws'') ''PMAK-1'' (Some (variant_A ''Y'' ''openapi: 3.0.0'')) odd_envelope = (Inr ?r, w1)"
    by (simp add: odd_envelope_def run_defs)
  from t[THEN conjunct2, THEN conjunct2, rule_format, OF conjI[OF h x],
         of 3 "[variant_B ''Y'' ''openapi: 3.0.0'', variant_C ''Y'' ''openapi: 3.0.0'']" None] h
  have l: "create_loop (Specs_url ''ws'') ''PMAK-1'' 3 (payload_variants ''Y'' ''openapi: 3.0.0'') None odd_envelope =
     create_loop (Specs_url ''ws'') ''PMAK-1'' 3
       [variant_B ''Y'' ''openapi: 3.0.0'', variant_C ''Y'' ''openapi: 3.0.0'']
       (Some (RuntimeError (Unexpected_spec_response ?r)))
       (snd (http_json ''POST'' (Specs_url ''ws'') ''PMAK-1'' (Some (variant_A ''Y'' ''openapi: 3.0.0'')) odd_envelope))"
    by (simp add: payload_variants_def)
  have "fst (create_spec ''ws'' ''PMAK-1'' ''Y'' ''openapi: 3.0.0'' odd_envelope) = Inr (JStr ''new'')"
    by (simp add: odd_envelope_def create_spec_def run_defs)
  with x l show ?thesis by simp
qed

text \<open>
  A top-level \<^verbatim>\<open>id\<close> field alone is not enough: a numeric identifier is turned down.
\<close>

theorem extraction_accepts_two_envelopes_counterexample:
  "map_of [(''id'', JInt 7)] ''id'' = Some (JInt 7) \<and>
   extract_spec_id (JObj [(''id'', JInt 7)]) =
     Inl (RuntimeError (Unexpected_spec_response (JObj [(''id'', JInt 7)])))"
  by (simp add: extract_spec_id_def py_and_def)

section \<open>Looking the name up\<close>

lemma list_specs_world:
  "snd (list_specs wid k w) = w\<lparr>hub := snd (serve w (hub w) (get_specs wid k)), log := log w @ [Http (get_specs wid k)]\<rparr>"
  using http_json_world[of "''GET''" "Specs_url wid" k None w]
  by (auto simp: list_specs_def get_specs_def split: prod.splits sum.splits)

lemma list_specs_no_key:
  assumes "serve w (hub w) (get_specs wid k) = (Ok_json (JObj kvs), s')" and "map_of kvs ''specs'' = None"
  shows "list_specs wid k w = (Inr (JArr []), w\<lparr>hub := s', log := log w @ [Http (get_specs wid k)]\<rparr>)"
  using assms by (simp add: list_specs_def http_json_def get_specs_def Let_def)

text \<open>
  C10. When the hub answers the listing with a JSON object that has no \<^verbatim>\<open>specs\<close> key,
  \<^verbatim>\<open>list_specs\<close> returns the empty list, and step 2 is the run of \<^verbatim>\<open>create_spec\<close>.
\<close>

theorem listing_without_specs_key_creates:
  "serve w (hub w) (get_specs (workspace_id a) k) = (Ok_json (JObj kvs), s') \<and> map_of kvs ''specs'' = None \<longrightarrow>
     list_specs (workspace_id a) k w =
       (Inr (JArr []), w\<lparr>hub := s', log := log w @ [Http (get_specs (workspace_id a) k)]\<rparr>) \<and>
     upsert a k y w =
       create_spec (workspace_id a) k (spec_name a) y
         (w\<lparr>hub := s', log := log w @ [Http (get_specs (workspace_id a) k)]\<rparr>)"
proof
  assume a: "serve w (hub w) (get_specs (workspace_id a) k) = (Ok_json (JObj kvs), s') \<and> map_of kvs ''specs'' = None"
  then have l: "list_specs (workspace_id a) k w =
       (Inr (JArr []), w\<lparr>hub := s', log := log w @ [Http (get_specs (workspace_id a) k)]\<rparr>)"
    using list_specs_no_key[of w "workspace_id a" k kvs s'] by simp
  then show "list_specs (workspace_id a) k w =
       (Inr (JArr []), w\<lparr>hub := s', log := log w @ [Http (get_specs (workspace_id a) k)]\<rparr>) \<and>
     upsert a k y w =
       create_spec (workspace_id a) k (spec_name a) y
         (w\<lparr>hub := s', log := log w @ [Http (get_specs (workspace_id a) k)]\<rparr>)"
    by (simp add: upsert_def)
qed

theorem listing_without_specs_key_creates_witness:
  "fst (list_specs ''ws'' ''PMAK-1'' bare_listing) = Inr (JArr []) \<and>
   fst (upsert local_args ''PMAK-1'' ''openapi: 3.0.0'' bare_listing) = Inr (JStr ''new'') \<and>
   log (snd (upsert local_args ''PMAK-1'' ''openapi: 3.0.0'' bare_listing)) =
     [Http (get_specs ''ws'' ''PMAK-1''), post (Specs_url ''ws'') ''PMAK-1'' (variant_A ''Y'' ''openapi: 3.0.0'')]"
proof -
  have s: "serve bare_listing (hub bare_listing) (get_specs (workspace_id local_args) ''PMAK-1'') =
      (Ok_json (JObj [(''message'', JStr ''ok'')]), [Ok_json (JObj [(''id'', JStr ''new'')])]) \<and>
    map_of [(''message'', JStr ''ok'')] ''specs'' = None"
    by (simp add: bare_listing_def hub_world_def)
  from listing_without_specs_key_creates[rule_format, OF s, of "''openapi: 3.0.0''"]
  show ?thesis
    by (simp add: local_args_def bare_listing_def create_spec_def post_def run_defs)
qed

section \<open>Create or update\<close>

lemma matching_filter:
  "\<forall>s\<in>set refs. is_dict s \<Longrightarrow> matching name refs = Inr (filter (named name) refs)"
proof (induction refs)
  case Nil
  show ?case by simp
next
  case (Cons s refs)
  then obtain kvs where s: "s = JObj kvs" by (cases s) auto
  from Cons have "matching name refs = Inr (filter (named name) refs)" by simp
  moreover have "named name s = (py_get s ''name'' JNull = Inr (JStr name))"
    by (simp add: named_def)
  ultimately show ?case
    by (simp add: s split: option.splits)
qed

lemma update_spec_log:
  "\<exists>j. log (snd (update_spec sid k name y w)) =
         log w @ map (put (Spec_url sid) k) (take (Suc j) (payload_variants name y))"
  using update_spec_cases[of sid k name y w] by blast

text \<open>
  C1, as the code has it. Let the listing be a list of dicts. With no ref of the target
  name, step 2 is the run of \<^verbatim>\<open>create_spec\<close>. With one or more, only the first in list
  order counts: when its \<^verbatim>\<open>id\<close> is truthy, step 2 is the run of \<^verbatim>\<open>update_spec\<close> on that
  id, every request of which is a \<^verbatim>\<open>PUT\<close> to the URL of that id, and that id is the
  result; when its \<^verbatim>\<open>id\<close> is absent or falsy (\<^verbatim>\<open>None\<close>, empty, zero), step 2 is the run
  of \<^verbatim>\<open>create_spec\<close>, whatever the later refs are.
\<close>

theorem update_first_match_else_create:
  "list_specs (workspace_id a) k w = (Inr (JArr refs), w1) \<and> (\<forall>s\<in>set refs. is_dict s) \<longrightarrow>
     (filter (named (spec_name a)) refs = [] \<longrightarrow>
        upsert a k y w = create_spec (workspace_id a) k (spec_name a) y w1) \<and>
     (\<forall>s rest v. filter (named (spec_name a)) refs = s # rest \<and> py_get s ''id'' JNull = Inr v \<longrightarrow>
        (truthy v \<longrightarrow>
           upsert a k y w =
             (case update_spec v k (spec_name a) y w1 of
                (Inl e, w2) \<Rightarrow> (Inl e, w2)
              | (Inr _, w2) \<Rightarrow> (Inr v, w2)) \<and>
           (\<exists>j. log (snd (upsert a k y w)) =
                  log w1 @ map (put (Spec_url v) k) (take (Suc j) (payload_variants (spec_name a) y)))) \<and>
        (\<not> truthy v \<longrightarrow>
           upsert a k y w = create_spec (workspace_id a) k (spec_name a) y w1))"
proof (intro impI, elim conjE)
  assume l: "list_specs (workspace_id a) k w = (Inr (JArr refs), w1)"
    and d: "\<forall>s\<in>set refs. is_dict s"
  note m = matching_filter[OF d, of "spec_name a"]
  have none: "upsert a k y w = create_spec (workspace_id a) k (spec_name a) y w1"
    if "filter (named (spec_name a)) refs = []"
    using l m that by (simp add: upsert_def)
  have some: "(truthy v \<longrightarrow>
           upsert a k y w =
             (case update_spec v k (spec_name a) y w1 of
                (Inl e, w2) \<Rightarrow> (Inl e, w2)
              | (Inr _, w2) \<Rightarrow> (Inr v, w2)) \<and>
           (\<exists>j. log (snd (upsert a k y w)) =
                  log w1 @ map (put (Spec_url v) k) (take (Suc j) (payload_variants (spec_name a) y)))) \<and>
        (\<not> truthy v \<longrightarrow>
           upsert a k y w = create_spec (workspace_id a) k (spec_name a) y w1)"
    if f: "filter (named (spec_name a)) refs = s # rest" and g: "py_get s ''id'' JNull = Inr v"
    for s rest v
  proof (intro conjI impI)
    assume "\<not> truthy v"
    with l m f g show "upsert a k y w = create_spec (workspace_id a) k (spec_name a) y w1"
      by (simp add: upsert_def)
  next
    assume t: "truthy v"
    have "s \<in> set (filter (named (spec_name a)) refs)" using f by simp
    with d obtain kvs where s: "s = JObj kvs" by (cases s) auto
    from g t have i: "py_getitem s ''id'' = Inr v"
      by (auto simp: s split: option.splits)
    from l m f g t i
    show u: "upsert a k y w =
             (case update_spec v k (spec_name a) y w1 of
                (Inl e, w2) \<Rightarrow> (Inl e, w2)
              | (Inr _, w2) \<Rightarrow> (Inr v, w2))"
      by (simp add: upsert_def)
    have "snd (upsert a k y w) = snd (update_spec v k (spec_name a) y w1)"
      unfolding u by (simp split: prod.splits sum.splits)
    with update_spec_log[of v k "spec_name a" y w1]
    show "\<exists>j. log (snd (upsert a k y w)) =
            log w1 @ map (put (Spec_url v) k) (take (Suc j) (payload_variants (spec_name a) y))"
      by simp
  qed
  from none some
  show "(filter (named (spec_name a)) refs = [] \<longrightarrow>
        upsert a k y w = create_spec (workspace_id a) k (spec_name a) y w1) \<and>
     (\<forall>s rest v. filter (named (spec_name a)) refs = s # rest \<and> py_get s ''id'' JNull = Inr v \<longrightarrow>
        (truthy v \<longrightarrow>
           upsert a k y w =
             (case update_spec v k (spec_name a) y w1 of
                (Inl e, w2) \<Rightarrow> (Inl e, w2)
              | (Inr _, w2) \<Rightarrow> (Inr v, w2)) \<and>
           (\<exists>j. log (snd (upsert a k y w)) =
                  log w1 @ map (put (Spec_url v) k) (take (Suc j) (payload_variants (spec_name a) y)))) \<and>
        (\<not> truthy v \<longrightarrow>
           upsert a k y w = create_spec (workspace_id a) k (spec_name a) y w1))"
    by blast
qed

text \<open>
  The scenario of the specification: two refs named Y, with ids a and b; the update
  goes to a.
\<close>

theorem update_first_match_else_create_witness:
  "fst (upsert local_args ''PMAK-1'' ''openapi: 3.0.0'' (hub_world Map.empty [listing (two_refs ''a''), Ok_empty])) =
     Inr (JStr ''a'') \<and>
   log (snd (upsert local_args ''PMAK-1'' ''openapi: 3.0.0'' (hub_world Map.empty [listing (two_refs ''a''), Ok_empty]))) =
     [Http (get_specs ''ws'' ''PMAK-1''), put (Spec_url (JStr ''a'')) ''PMAK-1'' (variant_A ''Y'' ''openapi: 3.0.0'')]"
proof -
  let ?w = "hub_world Map.empty [listing (two_refs ''a''), Ok_empty]"
  have l: "list_specs (workspace_id local_args) ''PMAK-1'' ?w =
      (Inr (JArr (two_refs ''a'')), snd (list_specs ''ws'' ''PMAK-1'' ?w)) \<and>
    (\<forall>s\<in>set (two_refs ''a''). is_dict s)"
    by (simp add: local_args_def list_specs_def listing_def two_refs_def run_defs)
  have f: "filter (named (spec_name local_args)) (two_refs ''a'') =
      JObj [(''id'', JStr ''a''), (''name'', JStr ''Y'')] # [JObj [(''id'', JStr ''b''), (''name'', JStr ''Y'')]] \<and>
    py_get (JObj [(''id'', JStr ''a''), (''name'', JStr ''Y'')]) ''id'' JNull = Inr (JStr ''a'')"
    by (simp add: local_args_def two_refs_def named_def)
  have t: "truthy (JStr ''a'')" by simp
  from update_first_match_else_create[rule_format, OF l, THEN conjunct2, rule_format, OF f,
         THEN conjunct1, rule_format, OF t, THEN conjunct1, of "''openapi: 3.0.0''"]
  show ?thesis
    by (simp add: local_args_def list_specs_def listing_def two_refs_def update_spec_def
          get_specs_def put_def run_defs)
qed

text \<open>
  The claim as stated fails when the first ref of the name has an empty id: both refs
  match, yet nothing is updated and a new spec is created, the id b being ignored too.
\<close>

theorem update_first_match_else_create_counterexample:
  "filter (named ''Y'') (two_refs '''') = two_refs '''' \<and>
   fst (upsert local_args ''PMAK-1'' ''openapi: 3.0.0''
          (hub_world Map.empty [listing (two_refs ''''), Ok_json (JObj [(''id'', JStr ''new'')])])) =
     Inr (JStr ''new'') \<and>
   log (snd (upsert local_args ''PMAK-1'' ''openapi: 3.0.0''
          (hub_world Map.empty [listing (two_refs ''''), Ok_json (JObj [(''id'', JStr ''new'')])]))) =
     [Http (get_specs ''ws'' ''PMAK-1''), post (Specs_url ''ws'') ''PMAK-1'' (variant_A ''Y'' ''openapi: 3.0.0'')]"
  by (simp add: local_args_def upsert_def list_specs_def listing_def two_refs_def named_def create_spec_def
        get_specs_def post_def run_defs)

section \<open>Configuration errors\<close>

text \<open>
  C7. Without the credential in the environment, \<^verbatim>\<open>main\<close> returns 2, which is the exit
  status of the process, and leaves the world as it found it: no request, no
  subprocess, no file written.
\<close>

theorem missing_credential_exits_2:
  "POSTMAN_API_KEY w = None \<longrightarrow>
     main a w = (Inr 2, w) \<and> exit_status (fst (main a w)) = 2 \<and> log (snd (main a w)) = log w"
  by (simp add: main_def)

theorem missing_credential_exits_2_witness:
  "main local_args ((hub_world Map.empty [listing []])\<lparr>POSTMAN_API_KEY := None\<rparr>) =
     (Inr 2, (hub_world Map.empty [listing []])\<lparr>POSTMAN_API_KEY := None\<rparr>) \<and>
   log (snd (main local_args ((hub_world Map.empty [listing []])\<lparr>POSTMAN_API_KEY := None\<rparr>))) = []"
proof -
  have "POSTMAN_API_KEY ((hub_world Map.empty [listing []])\<lparr>POSTMAN_API_KEY := None\<rparr>) = None"
    by simp
  from missing_credential_exits_2[rule_format, OF this, of local_args]
  show ?thesis by (simp add: hub_world_def)
qed

lemma get_spec_missing:
  assumes "\<not> present (local_spec a)"
    and "\<not> present (region a) \<or> \<not> present (rest_api_id a) \<or> \<not> present (stage_name a)"
  shows "get_spec a w = (Inl (SystemExit 2), w)"
  using assms by (auto simp: get_spec_def Let_def)

text \<open>
  C8. In export mode (no local spec given), when the region, the API identifier or the
  stage is missing, the run ends with exit status 2, the status of a configuration
  error: by \<^verbatim>\<open>parser.error\<close> when the credential is set, by the credential check
  otherwise. The world is left as it was found: \<^verbatim>\<open>aws\<close> has not been run and no request
  has been sent.
\<close>

theorem export_mode_missing_argument:
  "\<not> present (local_spec a) \<and>
   (\<not> present (region a) \<or> \<not> present (rest_api_id a) \<or> \<not> present (stage_name a)) \<longrightarrow>
     fst (main a w) = (if present (POSTMAN_API_KEY w) then Inl (SystemExit 2) else Inr 2) \<and>
     exit_status (fst (main a w)) = 2 \<and>
     snd (main a w) = w \<and>
     log (snd (main a w)) = log w"
proof
  assume h: "\<not> present (local_spec a) \<and>
   (\<not> present (region a) \<or> \<not> present (rest_api_id a) \<or> \<not> present (stage_name a))"
  then have "get_spec a w = (Inl (SystemExit 2), w)"
    by (intro get_spec_missing) simp_all
  then have "main a w = (if present (POSTMAN_API_KEY w) then Inl (SystemExit 2) else Inr 2, w)"
    by (simp add: main_def)
  then show "fst (main a w) = (if present (POSTMAN_API_KEY w) then Inl (SystemExit 2) else Inr 2) \<and>
     exit_status (fst (main a w)) = 2 \<and>
     snd (main a w) = w \<and>
     log (snd (main a w)) = log w"
    by simp
qed

text \<open>The scenario of the specification: export mode without \<^verbatim>\<open>--stage-name\<close>.\<close>

theorem export_mode_missing_argument_witness:
  "fst (main export_args (hub_world Map.empty [listing []])) = Inl (SystemExit 2) \<and>
   exit_status (fst (main export_args (hub_world Map.empty [listing []]))) = 2 \<and>
   log (snd (main export_args (hub_world Map.empty [listing []]))) = []"
proof -
  have "\<not> present (local_spec export_args) \<and>
   (\<not> present (region export_args) \<or> \<not> present (rest_api_id export_args) \<or> \<not> present (stage_name export_args))"
    by (simp add: export_args_def)
  from export_mode_missing_argument[rule_format, OF this, of "hub_world Map.empty [listing []]"]
  show ?thesis by (simp add: hub_world_def)
qed

section \<open>The output artifact in local mode\<close>

text \<open>
  C5. The property: in local mode the content left at the output path is the content
  of the input file, byte for byte, and when the two paths coincide nothing is copied.
  The code does not keep it. The input here is a file of two lines with a Windows line
  ending, \<^verbatim>\<open>a\r\nb\<close>, read from \<^verbatim>\<open>in.yaml\<close> and copied to \<^verbatim>\<open>openapi.yaml\<close>: the run succeeds
  with status 0, the input is as it was, and the copy is \<^verbatim>\<open>a\nb\<close>, the carriage return
  lost to the text mode of \<^verbatim>\<open>open\<close>. With the same file given as its own output, nothing
  is written and the file keeps its bytes, as the property says.
\<close>

theorem local_copy_loses_carriage_return:
  "fst (main local_args (hub_world crlf_file fresh_hub)) = Inr 0 \<and>
   files (snd (main local_args (hub_world crlf_file fresh_hub))) ''in.yaml'' =
     Some (Text [CHR ''a'', CR, LF, CHR ''b'']) \<and>
   files (snd (main local_args (hub_world crlf_file fresh_hub))) ''openapi.yaml'' =
     Some (Text [CHR ''a'', LF, CHR ''b'']) \<and>
   fst (main (local_args\<lparr>out := ''in.yaml''\<rparr>) (hub_world crlf_file fresh_hub)) = Inr 0 \<and>
   files (snd (main (local_args\<lparr>out := ''in.yaml''\<rparr>) (hub_world crlf_file fresh_hub))) ''in.yaml'' =
     Some (Text [CHR ''a'', CR, LF, CHR ''b''])"
  by (simp add: main_def get_spec_def read_text_def write_text_def write_newlines_def upsert_def
        list_specs_def create_spec_def generate_collection_from_spec_def
        local_args_def crlf_file_def fresh_hub_def listing_def run_defs)

text \<open>
  The script tells the two paths apart as strings. When they are two spellings of one
  file, \<^verbatim>\<open>./in.yaml\<close> and \<^verbatim>\<open>in.yaml\<close>, it writes, and the input itself loses its carriage
  return.
\<close>

lemma other_spelling_overwrites_the_input:
  "fst (main dotted_args dotted_world) = Inr 0 \<and>
   files dotted_world ''in.yaml'' = Some (Text [CHR ''a'', CR, LF, CHR ''b'']) \<and>
   files (snd (main dotted_args dotted_world)) ''in.yaml'' = Some (Text [CHR ''a'', LF, CHR ''b''])"
  by (simp add: main_def get_spec_def read_text_def write_text_def write_newlines_def upsert_def
        list_specs_def create_spec_def generate_collection_from_spec_def
        dotted_args_def dotted_world_def local_args_def crlf_file_def fresh_hub_def listing_def run_defs)

section \<open>Generation\<close>








end
